theory Spec2Isabelle
  imports Main "HOL-Library.Word" "HOL-Library.Signed_Division"
begin

unbundle bit_operations_syntax

section \<open>Common types\<close>

type_synonym byte = "8 word"
type_synonym bytes = "byte list"

text \<open>
  Every error a function of the repository returns, and every run-time panic it can raise,
  is a value of one datatype. The constructors carry what the Go format string prints.
\<close>

datatype error =
    EOF
  | UnableToReadHashsize error
  | InvalidHashSize byte
  | UnableToReadNumLeaves error
  | ShortRead nat
  | IndexOutOfRange
  | SliceOutOfRange
  | DivideByZero
  | NegativeShift
  | MakesliceOutOfRange
  | MakechanOutOfRange
  | ErrNoRows
  | StoreError string
  | FetchError string
  | InvalidRange int int
  | InvalidHashes nat nat
  | RangesDisjoint int int
  | RangeNotAnchored int
  | IllegalState int int
  | WriteLeavesError error
  | FailedToHash error
  | FailedToGetLeaves error
  | ExpectedSingleRoot nat
  | HashDifference int int int
  | FailedToSetTile int int error
  | FailedToGetTile int int error
  | FailedToCreateRange int int error
  | FailedToGetStragglers error
  | CalculationError int int
  | FailedToGetRootHash error
  | LogRootMismatch int bytes bytes
  | MismatchedModule int string string
  | MismatchedVersion int string string

section \<open>serverless/api/state.go: the tile codec\<close>

text \<open>
  \<^verbatim>\<open>type Tile struct { NumLeaves uint; Nodes [][]byte }\<close>.
  \<open>uint\<close> is 64 bits wide. An entry of \<open>Nodes\<close> is a byte slice, which may be \<open>nil\<close>
  (\<open>None\<close>); a slice that is empty but not \<open>nil\<close> is \<open>Some []\<close>.
\<close>

record Tile =
  NumLeaves :: "64 word"
  Nodes :: "bytes option list"

text \<open>\<open>bytes.Buffer.Write(n)\<close> appends the bytes of \<open>n\<close>; a \<open>nil\<close> slice has none.\<close>

definition slice_bytes :: "bytes option \<Rightarrow> bytes" where
  "slice_bytes n = (case n of None \<Rightarrow> [] | Some h \<Rightarrow> h)"

text \<open>
  \<open>MarshalBinary\<close> writes the byte 32, then \<open>byte(t.NumLeaves)\<close> (the conversion keeps the
  low eight bits), then every node. Its error result is always \<open>nil\<close>, so the model returns
  the bytes alone.
\<close>

definition MarshalBinary :: "Tile \<Rightarrow> bytes" where
  "MarshalBinary t =
     [32, ucast (NumLeaves t)] @ concat (map slice_bytes (Nodes t))"

text \<open>
  The read loop of \<open>UnmarshalBinary\<close>. It is entered only after \<open>hs != 32\<close> has returned, so
  \<open>hs\<close> is 32 in it. \<open>bytes.Buffer.Read(h)\<close> on an empty buffer returns \<open>io.EOF\<close>, which
  ends the loop; otherwise it copies \<open>n = min (len h) (remaining)\<close> bytes, and fewer than
  \<open>hs\<close> is the short-read error.
\<close>

function readNodes :: "bytes \<Rightarrow> bytes option list \<Rightarrow> error + bytes option list" where
  "readNodes buf nodes =
     (if buf = [] then Inr nodes
      else let n = min 32 (length buf);
               h = take n buf @ replicate (32 - n) 0
           in if n \<noteq> 32 then Inl (ShortRead n)
              else readNodes (drop n buf) (nodes @ [Some h]))"
  by pat_completeness auto
termination
  by (relation "measure (\<lambda>(buf, nodes). length buf)") auto

declare readNodes.simps [simp del]

definition UnmarshalBinary :: "bytes \<Rightarrow> error + Tile" where
  "UnmarshalBinary raw =
     (case raw of
        [] \<Rightarrow> Inl (UnableToReadHashsize EOF)
      | hs # b1 \<Rightarrow>
          if hs \<noteq> 32 then Inl (InvalidHashSize hs)
          else (case b1 of
                  [] \<Rightarrow> Inl (UnableToReadNumLeaves EOF)
                | numLeaves # b2 \<Rightarrow>
                    (case readNodes b2 [] of
                       Inl e \<Rightarrow> Inl e
                     | Inr nodes \<Rightarrow> Inr \<lparr>NumLeaves = ucast numLeaves, Nodes = nodes\<rparr>)))"

text \<open>
  \<^verbatim>\<open>uint(1<<(level+1)*index + 1<<level - 1)\<close>: shift and multiplication bind alike and
  associate to the left, so this is \<open>(1 << (level+1)) * index + (1 << level) - 1\<close> in
  \<open>uint64\<close> arithmetic; a shift by 64 or more gives 0.
\<close>

definition TileNodeKey :: "64 word \<Rightarrow> 64 word \<Rightarrow> 64 word" where
  "TileNodeKey level index =
     push_bit (unat (level + 1)) 1 * index + push_bit (unat level) 1 - 1"

section \<open>serverless/internal/storage/tile.go\<close>

text \<open>
  \<open>TileSize\<close> scans \<open>i = 0 .. 255\<close> and returns the first \<open>i\<close> whose level-0 node is \<open>nil\<close>.
  Indexing \<open>t.Nodes\<close> beyond its length panics.
\<close>

function TileSize_loop :: "Tile \<Rightarrow> 64 word \<Rightarrow> error + 64 word" where
  "TileSize_loop t i =
     (if i < 256 then
        (if unat (TileNodeKey 0 i) < length (Nodes t) then
           (if Nodes t ! unat (TileNodeKey 0 i) = None then Inr i
            else TileSize_loop t (i + 1))
         else Inl IndexOutOfRange)
      else Inr 256)"
  by pat_completeness auto
termination
  by (relation "measure (\<lambda>(t, i). 256 - unat i)")
     (auto simp: unat_word_ariths word_less_nat_alt)

declare TileSize_loop.simps [simp del]

definition TileSize :: "Tile \<Rightarrow> error + 64 word" where
  "TileSize t = TileSize_loop t 0"

text \<open>Two concrete tiles of two leaves: one padded with \<open>nil\<close> to 511 entries, one not.\<close>

definition padded_tile :: Tile where
  "padded_tile = \<lparr>NumLeaves = 2, Nodes = [Some [], Some [], Some []] @ replicate 508 None\<rparr>"

definition unpadded_tile :: Tile where
  "unpadded_tile = \<lparr>NumLeaves = 2, Nodes = [Some [], Some [], Some []]\<rparr>"

section \<open>The audit package: integers\<close>

text \<open>
  Go's \<open>int\<close> and \<open>int64\<close> are 64-bit two's complement, \<open>uint64\<close> is 64-bit unsigned.
  Values are modelled as \<open>int\<close>; \<open>i64\<close> and \<open>u64\<close> write out the wrap-around of an
  arithmetic result or of a conversion. \<open>/\<close> on signed integers truncates towards zero
  (\<open>sdiv\<close>) and panics on a zero divisor.
\<close>

definition u64 :: "int \<Rightarrow> int" where
  "u64 x = x mod 2 ^ 64"

definition i64 :: "int \<Rightarrow> int" where
  "i64 x = (x + 2 ^ 63) mod 2 ^ 64 - 2 ^ 63"

section \<open>The audit package: getLevelsForLeafCount\<close>

text \<open>
  \<^verbatim>\<open>for coveredIdx > 0 { coveredIdx = coveredIdx >> s.height; topLevel++ }\<close>.
  \<open>>>\<close> on \<open>int64\<close> is the arithmetic shift, \<open>drop_bit\<close> on \<open>int\<close>. With height 0 the
  loop never ends on a positive count, so the loop is a partial function: \<open>None\<close> is
  "does not return".
\<close>

partial_function (option) getLevels_loop :: "nat \<Rightarrow> int \<Rightarrow> int \<Rightarrow> int option" where
  "getLevels_loop height coveredIdx topLevel =
     (if coveredIdx > 0
      then getLevels_loop height (drop_bit height coveredIdx) (topLevel + 1)
      else Some topLevel)"

declare getLevels_loop.simps [code]

definition getLevelsForLeafCount :: "nat \<Rightarrow> int \<Rightarrow> int option" where
  "getLevelsForLeafCount height leaves =
     getLevels_loop height (drop_bit height leaves) (- 1)"

section \<open>The audit package: collaborators\<close>

text \<open>
  Leaf bodies are byte strings, written as \<open>string\<close> (a \<open>char\<close> is a byte); hashes are
  \<open>bytes\<close>. \<open>Metadata\<close> is the row \<open>ProcessMetadata\<close> builds from a leaf.
\<close>

record Metadata =
  module :: string
  version :: string
  repoHash :: string
  modHash :: string

text \<open>Modelled from the spec: the local database (\<open>Database\<close>) is not among the sources; the
  service uses it through these operations (spec, section 4.B), with the signatures of the
  call sites. The state of the store is a value of type \<open>'db\<close> passed in and, for a write,
  returned; a failed write leaves it as it was (each call is atomic).
\<close>

record 'db LocalStore =
  Head :: "'db \<Rightarrow> error + int"
  WriteLeaves :: "'db \<Rightarrow> int \<Rightarrow> string list \<Rightarrow> error + 'db"
  Leaves :: "'db \<Rightarrow> int \<Rightarrow> int \<Rightarrow> error + string list"
  Tile :: "'db \<Rightarrow> nat \<Rightarrow> int \<Rightarrow> int \<Rightarrow> error + bytes list"
  SetTile :: "'db \<Rightarrow> nat \<Rightarrow> int \<Rightarrow> int \<Rightarrow> bytes \<Rightarrow> error + 'db"
  SetLeafMetadata :: "'db \<Rightarrow> int \<Rightarrow> Metadata list \<Rightarrow> error + 'db"

text \<open>Modelled from the spec: the remote log client (\<open>SumDBClient\<close>) is not among the sources
  (spec, section 4.C). A fetch of a full tile may fail now and succeed later, so it takes
  the number of the attempt.
\<close>

record SumDBClient =
  FullLeavesAtOffset :: "int \<Rightarrow> nat \<Rightarrow> error + string list"
  PartialLeavesAtOffset :: "int \<Rightarrow> int \<Rightarrow> error + string list"

text \<open>
  \<^verbatim>\<open>type Service struct { localDB; sumDB; rf *compact.RangeFactory; height int }\<close>.
  \<open>rfHash\<close> is the \<open>Hash\<close> field of the range factory (\<open>tlog.NodeHash\<close>), \<open>RecordHash\<close> is
  \<open>tlog.RecordHash\<close>; both are SHA-256 computations of an external library and stay
  parameters. \<open>retries\<close> stands for the exponential back-off's time limit: the number of
  further attempts after a failed fetch. The height is a shift count, never negative.
\<close>

record 'db Service =
  localDB :: "'db LocalStore"
  sumDB :: SumDBClient
  rfHash :: "bytes \<Rightarrow> bytes \<Rightarrow> bytes"
  RecordHash :: "string \<Rightarrow> bytes"
  height :: nat
  retries :: nat

text \<open>Modelled from the spec: the constant \<open>HashLenBytes\<close> is declared outside the sources;
  hashes are 32 bytes (spec, invariant I1).\<close>

definition HashLenBytes :: int where
  "HashLenBytes = 32"

section \<open>The audit package: compact ranges\<close>

text \<open>Modelled from the spec: the compact range (package \<open>compact\<close> of the Trillian library) is
  not among the sources. Section 4.D of the spec: a range \<open>[begin, end)\<close> is a list of
  roots of perfect subtrees, one per set bit of its width; \<open>Append\<close> adds a leaf hash and
  merges equal-height right neighbours while carrying; \<open>AppendRange\<close> concatenates a
  right-adjacent range with the same merge rule on the seam; \<open>GetRootHash\<close> combines the
  roots pairwise from right to left. Each root is kept with its height, the rightmost root
  first.
\<close>

record Range =
  rbegin :: int
  rend :: int
  roots :: "(nat \<times> bytes) list"

definition NewEmptyRange :: "int \<Rightarrow> Range" where
  "NewEmptyRange b = \<lparr>rbegin = b, rend = b, roots = []\<rparr>"

fun push_root :: "(bytes \<Rightarrow> bytes \<Rightarrow> bytes) \<Rightarrow> nat \<times> bytes \<Rightarrow> (nat \<times> bytes) list
    \<Rightarrow> (nat \<times> bytes) list" where
  "push_root hash (h, x) [] = [(h, x)]"
| "push_root hash (h, x) ((h', y) # rs) =
     (if h' = h then push_root hash (Suc h, hash y x) rs else (h, x) # (h', y) # rs)"

definition Append :: "(bytes \<Rightarrow> bytes \<Rightarrow> bytes) \<Rightarrow> Range \<Rightarrow> bytes \<Rightarrow> Range" where
  "Append hash r x = r\<lparr>roots := push_root hash (0, x) (roots r), rend := u64 (rend r + 1)\<rparr>"




definition Hashes :: "Range \<Rightarrow> bytes list" where
  "Hashes r = rev (map snd (roots r))"


section \<open>The audit package: CloneLeafTiles\<close>

text \<open>What the service does to its collaborators, in order: a call of
  \<open>FullLeavesAtOffset\<close> (offset and attempt), or a call of \<open>WriteLeaves\<close> (start index)
  that succeeded or failed.\<close>

datatype event = Fetch int nat | Wrote int | WriteFailed int error

text \<open>
  \<open>backoff.Retry(operation, backoff.NewExponentialBackOff())\<close>: the operation runs at least
  once and is run again after a failure until it succeeds or the back-off gives up; the last
  error is returned.
\<close>

fun retry_fetch :: "SumDBClient \<Rightarrow> int \<Rightarrow> nat \<Rightarrow> nat \<Rightarrow> (error + string list) \<times> event list" where
  "retry_fetch c offset attempt 0 = (FullLeavesAtOffset c offset attempt, [Fetch offset attempt])"
| "retry_fetch c offset attempt (Suc n) =
     (case FullLeavesAtOffset c offset attempt of
        Inr leaves \<Rightarrow> (Inr leaves, [Fetch offset attempt])
      | Inl e \<Rightarrow> (let (r, tr) = retry_fetch c offset (Suc attempt) n
                 in (r, Fetch offset attempt # tr)))"

text \<open>
  The two loops over \<open>i < remainingChunks\<close>, the producer goroutine and the consumer,
  taken in step: chunk \<open>i\<close> is fetched, then written. The channels are unbuffered, so the
  consumer receives the results in the order of the fetches, and what it writes and returns
  is as in this sequential run; the producer may already have started the next fetch when
  a write is made. The result is the error (or \<open>nil\<close>), the store and the calls made.
\<close>

function clone_loop :: "'db Service \<Rightarrow> 'db \<Rightarrow> int \<Rightarrow> int \<Rightarrow> int \<Rightarrow> int \<Rightarrow> event list
    \<Rightarrow> (error + unit) \<times> 'db \<times> event list" where
  "clone_loop s db startOffset tileWidth remainingChunks i tr =
     (if i < remainingChunks then
        (let offset = i64 (startOffset + i) in
         case retry_fetch (sumDB s) offset 0 (retries s) of
           (Inl e, tr') \<Rightarrow> (Inl e, db, tr @ tr')
         | (Inr leaves, tr') \<Rightarrow>
             (let start = i64 (offset * tileWidth) in
              case WriteLeaves (localDB s) db start leaves of
                Inl e \<Rightarrow> (Inl (WriteLeavesError e), db, tr @ tr' @ [WriteFailed start e])
              | Inr db' \<Rightarrow>
                  clone_loop s db' startOffset tileWidth remainingChunks (i + 1)
                    (tr @ tr' @ [Wrote start])))
      else (Inr (), db, tr))"
  by pat_completeness auto
termination
  by (relation "measure (\<lambda>(s, db, startOffset, tileWidth, remainingChunks, i, tr).
        nat (remainingChunks - i))") auto

declare clone_loop.simps [simp del]

text \<open>
  \<open>CloneLeafTiles\<close>. An error of \<open>Head()\<close> is logged and the head taken as \<open>-1\<close>. The guard
  compares the checkpoint's size with \<open>head\<close>. \<open>int64(1 << s.height)\<close> is a 64-bit shift;
  a zero \<open>tileWidth\<close> makes the division panic.
\<close>

definition CloneLeafTiles :: "'db Service \<Rightarrow> 'db \<Rightarrow> int \<Rightarrow> (error + unit) \<times> 'db \<times> event list" where
  "CloneLeafTiles s db N =
     (let head = (case Head (localDB s) db of Inl err \<Rightarrow> - 1 | Inr h \<Rightarrow> h) in
      if N < head then (Inl (IllegalState head N), db, [])
      else
        let localLeaves = i64 (head + 1);
            tileWidth = i64 (2 ^ height s);
            remainingLeaves = i64 (N - localLeaves)
        in if tileWidth = 0 then (Inl DivideByZero, db, [])
           else
             let remainingChunks = i64 (remainingLeaves sdiv tileWidth);
                 startOffset = i64 (localLeaves sdiv tileWidth)
             in if remainingChunks > 0
                then clone_loop s db startOffset tileWidth remainingChunks 0 []
                else (Inr (), db, []))"

section \<open>The audit package: HashTiles\<close>

text \<open>Go's \<open>copy(dst[pos:], src)\<close>: as many bytes of \<open>src\<close> as fit into \<open>dst\<close> from \<open>pos\<close>.\<close>

definition copy_at :: "bytes \<Rightarrow> nat \<Rightarrow> bytes \<Rightarrow> bytes" where
  "copy_at dst pos src =
     take pos dst @ take (length dst - pos) src @ drop (pos + length src) dst"

text \<open>
  \<open>hashLeafTile\<close> reads the leaves of a tile, hashes each, packs the hashes into a blob and
  stores it. \<open>res\<close> has \<open>tileWidth\<close> entries, \<open>nil\<close> (here \<open>[]\<close>) where no leaf was read;
  more leaves than \<open>tileWidth\<close> index it out of range.
\<close>

definition hashLeafTile :: "'db Service \<Rightarrow> 'db \<Rightarrow> int \<Rightarrow> (error + bytes list) \<times> 'db" where
  "hashLeafTile s db offset =
     (let tileWidth = i64 (2 ^ height s) in
      case Leaves (localDB s) db (i64 (tileWidth * offset)) tileWidth of
        Inl e \<Rightarrow> (Inl (FailedToGetLeaves e), db)
      | Inr leaves \<Rightarrow>
          if tileWidth < 0 then (Inl MakesliceOutOfRange, db)
          else if tileWidth < int (length leaves) then (Inl IndexOutOfRange, db)
          else
            let res = map (RecordHash s) leaves @ replicate (nat tileWidth - length leaves) [];
                leafHashes = fold (\<lambda>i blob. copy_at blob (i * nat HashLenBytes) (res ! i))
                               [0..<length leaves] (replicate (nat (tileWidth * HashLenBytes)) 0)
            in case SetTile (localDB s) db (height s) 0 offset leafHashes of
                 Inl e \<Rightarrow> (Inl e, db)
               | Inr db' \<Rightarrow> (Inr res, db'))"

text \<open>
  The stages of \<open>HashTiles\<close> are goroutines joined by buffered channels that are never
  closed. A stage ends with \<open>nil\<close> (\<open>Done\<close>), ends with an error (\<open>Failed\<close>), or waits for
  ever for a root that the stage below never sends (\<open>Blocked\<close>). The model runs the stages
  one after the other, the lowest first, each on all the roots the stage below sent; the
  store is passed from stage to stage (the stages touch tiles of different levels).
\<close>

datatype outcome = Done | Failed error | Blocked

function hashLeafLevel_loop :: "'db Service \<Rightarrow> 'db \<Rightarrow> int \<Rightarrow> int \<Rightarrow> Range list
    \<Rightarrow> outcome \<times> Range list \<times> 'db" where
  "hashLeafLevel_loop s db tileCount offset sent =
     (if offset < tileCount then
        (case (case Tile (localDB s) db (height s) 0 offset of
                 Inl e \<Rightarrow> if e = ErrNoRows then hashLeafTile s db offset else (Inl e, db)
               | Inr hashes \<Rightarrow> (Inr hashes, db)) of
           (Inl e, db') \<Rightarrow> (Failed e, sent, db')
         | (Inr hashes, db') \<Rightarrow>
             (let cr = foldl (Append (rfHash s))
                         (NewEmptyRange (u64 (u64 offset * 2 ^ height s))) hashes
              in if length (Hashes cr) \<noteq> 1
                 then (Failed (ExpectedSingleRoot (length (Hashes cr))), sent, db')
                 else hashLeafLevel_loop s db' tileCount (offset + 1) (sent @ [cr])))
      else (Done, sent, db))"
  by pat_completeness auto
termination
  by (relation "measure (\<lambda>(s, db, tileCount, offset, sent). nat (tileCount - offset))") auto

declare hashLeafLevel_loop.simps [simp del]

definition hashLeafLevel :: "'db Service \<Rightarrow> 'db \<Rightarrow> int \<Rightarrow> outcome \<times> Range list \<times> 'db" where
  "hashLeafLevel s db tileCount = hashLeafLevel_loop s db tileCount 0 []"

text \<open>
  The inner loop of \<open>hashUpperLevel\<close>: \<open>n\<close> more roots are received for slots \<open>i, i+1, ...\<close>;
  each is copied into the blob and, when the tile was found in the store, compared with the
  stored hash of its slot. The result is the outcome, the hashes, the blob, and the roots
  not yet received.
\<close>

fun receive_roots :: "int \<Rightarrow> int \<Rightarrow> bool \<Rightarrow> bytes list \<Rightarrow> nat \<Rightarrow> nat \<Rightarrow> Range list
    \<Rightarrow> bytes list \<Rightarrow> bytes \<Rightarrow> outcome \<times> bytes list \<times> bytes \<times> Range list" where
  "receive_roots level offset found dbTileHashes i 0 input inHashes blob =
     (Done, inHashes, blob, input)"
| "receive_roots level offset found dbTileHashes i (Suc n) [] inHashes blob =
     (Blocked, inHashes, blob, [])"
| "receive_roots level offset found dbTileHashes i (Suc n) (cr # input) inHashes blob =
     (case Hashes cr of
        [] \<Rightarrow> (Failed IndexOutOfRange, inHashes, blob, input)
      | h # hs \<Rightarrow>
          (let inHashes' = inHashes @ [h];
               blob' = copy_at blob (i * nat HashLenBytes) h
           in if found \<and> length dbTileHashes \<le> i
                then (Failed IndexOutOfRange, inHashes', blob', input)
              else if found \<and> dbTileHashes ! i \<noteq> h
                then (Failed (HashDifference level offset (int i)), inHashes', blob', input)
              else receive_roots level offset found dbTileHashes (Suc i) n input inHashes' blob'))"

function hashUpperLevel_loop :: "'db Service \<Rightarrow> 'db \<Rightarrow> int \<Rightarrow> int \<Rightarrow> int \<Rightarrow> Range list
    \<Rightarrow> bytes \<Rightarrow> Range list \<Rightarrow> outcome \<times> Range list \<times> Range list \<times> 'db" where
  "hashUpperLevel_loop s db level tileCount offset input blob sent =
     (if offset < tileCount then
        (case (case Tile (localDB s) db (height s) level offset of
                 Inl e \<Rightarrow> if e = ErrNoRows then Inr (False, []) else Inl e
               | Inr dbTileHashes \<Rightarrow> Inr (True, dbTileHashes)) of
           Inl e \<Rightarrow> (Failed e, input, sent, db)
         | Inr (found, dbTileHashes) \<Rightarrow>
             (case receive_roots level offset found dbTileHashes 0 (2 ^ height s) input [] blob of
                (Done, inHashes, blob', input') \<Rightarrow>
                  (case (if found then Inr db
                         else SetTile (localDB s) db (height s) level offset blob') of
                     Inl e \<Rightarrow> (Failed (FailedToSetTile level offset e), input', sent, db)
                   | Inr db' \<Rightarrow>
                       (let cr = foldl (Append (rfHash s))
                                   (NewEmptyRange (u64 (i64 (offset * i64 (2 ^ height s)))))
                                   inHashes
                        in if length (Hashes cr) \<noteq> 1
                           then (Failed (ExpectedSingleRoot (length (Hashes cr))), input', sent, db')
                           else hashUpperLevel_loop s db' level tileCount (offset + 1) input' blob'
                                  (sent @ [cr])))
              | (out, inHashes, blob', input') \<Rightarrow> (out, input', sent, db)))
      else (Done, input, sent, db))"
  by pat_completeness auto
termination
  by (relation "measure (\<lambda>(s, db, level, tileCount, offset, input, blob, sent).
        nat (tileCount - offset))") auto

declare hashUpperLevel_loop.simps [simp del]

text \<open>\<open>hashUpperLevel\<close> returns the outcome, the number of roots it received, the roots it
  sent and the store. \<open>HashTiles\<close> starts it only with a positive \<open>tileWidth\<close>, which is
  then \<open>2 ^ height\<close>.\<close>

definition hashUpperLevel :: "'db Service \<Rightarrow> 'db \<Rightarrow> int \<Rightarrow> int \<Rightarrow> Range list
    \<Rightarrow> outcome \<times> nat \<times> Range list \<times> 'db" where
  "hashUpperLevel s db level tileCount input =
     (case hashUpperLevel_loop s db level tileCount 0 input
             (replicate (nat (i64 (2 ^ height s) * HashLenBytes)) 0) [] of
        (out, input', sent, db') \<Rightarrow> (out, length input - length input', sent, db'))"

text \<open>
  The loop of \<open>HashTiles\<close> that starts the upper stages, \<open>i = 1 .. K\<close>. Of each stage it
  keeps the outcome, the number of roots received and the number of roots sent.
\<close>

function upper_stages :: "'db Service \<Rightarrow> 'db \<Rightarrow> int \<Rightarrow> int \<Rightarrow> int \<Rightarrow> int \<Rightarrow> Range list
    \<Rightarrow> (outcome \<times> nat \<times> nat) list \<times> 'db" where
  "upper_stages s db tileWidth K i tileCount input =
     (if i \<le> K then
        (let tileCount' = i64 (tileCount sdiv tileWidth) in
         case hashUpperLevel s db i tileCount' input of
           (out, received, sent, db') \<Rightarrow>
             (case upper_stages s db' tileWidth K (i + 1) tileCount' sent of
                (stages, db'') \<Rightarrow> ((out, received, length sent) # stages, db'')))
      else ([], db))"
  by pat_completeness auto
termination
  by (relation "measure (\<lambda>(s, db, tileWidth, K, i, tileCount, input). nat (K + 1 - i))") auto

declare upper_stages.simps [simp del]

text \<open>
  A stage waits for ever on a send when it has more roots to send than the stage above
  receives plus the \<open>tileWidth\<close> the channel buffers; nothing receives from the topmost
  channel.
\<close>

fun send_blocked :: "nat \<Rightarrow> (outcome \<times> nat \<times> nat) list \<Rightarrow> bool" where
  "send_blocked w [] = False"
| "send_blocked w [(out, received, sent)] = (w < sent)"
| "send_blocked w ((out, received, sent) # (out', received', sent') # stages) =
     (received' + w < sent \<or> send_blocked w ((out', received', sent') # stages))"

fun first_error :: "(outcome \<times> nat \<times> nat) list \<Rightarrow> error option" where
  "first_error [] = None"
| "first_error ((Failed e, received, sent) # stages) = Some e"
| "first_error ((out, received, sent) # stages) = first_error stages"

text \<open>
  \<open>HashTiles\<close>. \<open>g.Wait()\<close> returns when every stage has returned, with the first error;
  the model takes the error of the lowest failed stage. If a stage waits for ever,
  \<open>HashTiles\<close> does not return (\<open>None\<close>), as when \<open>getLevelsForLeafCount\<close> does not.
  \<open>make(chan, tileWidth)\<close> panics on a negative size, the division on a zero \<open>tileWidth\<close>.
\<close>

definition HashTiles :: "'db Service \<Rightarrow> 'db \<Rightarrow> int \<Rightarrow> ((error + unit) \<times> 'db) option" where
  "HashTiles s db N =
     (let tileWidth = i64 (2 ^ height s) in
      if tileWidth = 0 then Some (Inl DivideByZero, db)
      else if tileWidth < 0 then Some (Inl MakechanOutOfRange, db)
      else
        let tileCount = i64 (N sdiv tileWidth) in
        case hashLeafLevel s db tileCount of
          (out, sent, db') \<Rightarrow>
            (case getLevelsForLeafCount (height s) N of
               None \<Rightarrow> None
             | Some K \<Rightarrow>
                 (case upper_stages s db' tileWidth K 1 tileCount sent of
                    (stages, db'') \<Rightarrow>
                      (let all = (out, 0, length sent) # stages in
                       if (\<exists>st \<in> set all. fst st = Blocked) \<or> send_blocked (nat tileWidth) all
                       then None
                       else (case first_error all of
                               None \<Rightarrow> Some (Inr (), db'')
                             | Some e \<Rightarrow> Some (Inl (FailedToHash e), db''))))))"

section \<open>The audit package: CheckRootHash\<close>








section \<open>The audit package: ProcessMetadata\<close>

text \<open>\<open>strings.Split(s, sep)\<close> for a separator of one byte: one more part than there are
  separators, so never an empty list.\<close>

fun split_on :: "char \<Rightarrow> string \<Rightarrow> string list" where
  "split_on c [] = [[]]"
| "split_on c (x # xs) =
     (if x = c then [] # split_on c xs
      else (case split_on c xs of [] \<Rightarrow> [[x]] | w # ws \<Rightarrow> (x # w) # ws))"

text \<open>
  The body of the loop over the leaves of a tile, up to the \<open>Metadata\<close> value it stores.
  Indexing a slice beyond its length and slicing a string beyond its length panic; the
  checks are in the order in which the code evaluates the expressions.
\<close>

definition parseLeaf :: "int \<Rightarrow> string \<Rightarrow> error + Metadata" where
  "parseLeaf leafID h =
     (let lines = split_on CHR 0x0A h;
          tokens = split_on CHR '' '' (lines ! 0)
      in if length tokens < 3 then Inl IndexOutOfRange
         else
           let module = tokens ! 0; version = tokens ! 1; repoHash = tokens ! 2
           in if length lines < 2 then Inl IndexOutOfRange
              else
                let tokens2 = split_on CHR '' '' (lines ! 1)
                in if tokens2 ! 0 \<noteq> module
                     then Inl (MismatchedModule leafID (tokens2 ! 0) module)
                   else if length tokens2 < 2 then Inl IndexOutOfRange
                   else if length (tokens2 ! 1) < length version then Inl SliceOutOfRange
                   else if take (length version) (tokens2 ! 1) \<noteq> version
                     then Inl (MismatchedVersion leafID (take (length version) (tokens2 ! 1)) version)
                   else if length tokens2 < 3 then Inl IndexOutOfRange
                   else Inr \<lparr>module = module, version = version, repoHash = repoHash,
                             modHash = tokens2 ! 2\<rparr>)"

text \<open>\<open>for i, h := range hashes { ...; metadata[i] = Metadata{...} }\<close>: the slice
  \<open>metadata\<close> has \<open>tileWidth\<close> entries and is reused from tile to tile.\<close>

fun parseLeaves :: "int \<Rightarrow> nat \<Rightarrow> string list \<Rightarrow> Metadata list \<Rightarrow> error + Metadata list" where
  "parseLeaves leafOffset i [] metadata = Inr metadata"
| "parseLeaves leafOffset i (h # hs) metadata =
     (case parseLeaf (i64 (leafOffset + int i)) h of
        Inl e \<Rightarrow> Inl e
      | Inr m \<Rightarrow>
          if i < length metadata then parseLeaves leafOffset (Suc i) hs (metadata[i := m])
          else Inl IndexOutOfRange)"

function ProcessMetadata_loop :: "'db Service \<Rightarrow> 'db \<Rightarrow> int \<Rightarrow> int \<Rightarrow> Metadata list \<Rightarrow> int
    \<Rightarrow> (error + unit) \<times> 'db" where
  "ProcessMetadata_loop s db tileWidth tileCount metadata offset =
     (if offset < tileCount then
        (let leafOffset = i64 (offset * tileWidth) in
         case Leaves (localDB s) db leafOffset tileWidth of
           Inl e \<Rightarrow> (Inl e, db)
         | Inr hashes \<Rightarrow>
             (case parseLeaves leafOffset 0 hashes metadata of
                Inl e \<Rightarrow> (Inl e, db)
              | Inr metadata' \<Rightarrow>
                  (case SetLeafMetadata (localDB s) db leafOffset metadata' of
                     Inl e \<Rightarrow> (Inl e, db)
                   | Inr db' \<Rightarrow>
                       ProcessMetadata_loop s db' tileWidth tileCount metadata' (offset + 1))))
      else (Inr (), db))"
  by pat_completeness auto
termination
  by (relation "measure (\<lambda>(s, db, tileWidth, tileCount, metadata, offset).
        nat (tileCount - offset))") auto

declare ProcessMetadata_loop.simps [simp del]

text \<open>\<open>tileWidth := 1 << s.height\<close> is an \<open>int\<close>; \<open>make\<close> panics on a negative length and
  the division on a zero \<open>tileWidth\<close>. The zero value of \<open>Metadata\<close> has empty strings.\<close>

definition ProcessMetadata :: "'db Service \<Rightarrow> 'db \<Rightarrow> int \<Rightarrow> (error + unit) \<times> 'db" where
  "ProcessMetadata s db N =
     (let tileWidth = i64 (2 ^ height s) in
      if tileWidth < 0 then (Inl MakesliceOutOfRange, db)
      else if tileWidth = 0 then (Inl DivideByZero, db)
      else ProcessMetadata_loop s db tileWidth (i64 (N sdiv tileWidth))
             (replicate (nat tileWidth)
                \<lparr>module = [], version = [], repoHash = [], modHash = []\<rparr>) 0)"

section \<open>The range CheckRootHash builds, described without the loops\<close>






section \<open>An in-memory store and a remote log to run the service on\<close>

text \<open>Modelled from the spec: a store that meets the contract of section 4.B. Leaves are dense
  from index 0; \<open>Head\<close> is the last index or \<open>-1\<close>; \<open>WriteLeaves\<close> needs
  \<open>start = Head() + 1\<close>; a tile is kept as the packed blob \<open>SetTile\<close> received and read back
  in hashes of 32 bytes; a tile never written is \<open>ErrNoRows\<close>.
\<close>

record MemDB =
  mleaves :: "string list"
  mtiles :: "((nat \<times> int \<times> int) \<times> bytes) list"
  mmetadata :: "(int \<times> Metadata list) list"

fun chunks32 :: "nat \<Rightarrow> bytes \<Rightarrow> bytes list" where
  "chunks32 0 b = []"
| "chunks32 (Suc n) b = take 32 b # chunks32 n (drop 32 b)"

definition mem_store :: "MemDB LocalStore" where
  "mem_store =
     \<lparr>Head = (\<lambda>db. Inr (int (length (mleaves db)) - 1)),
      WriteLeaves = (\<lambda>db start leaves.
        if start = int (length (mleaves db)) then Inr (db\<lparr>mleaves := mleaves db @ leaves\<rparr>)
        else Inl (StoreError ''WriteLeaves: start is not Head() + 1'')),
      Leaves = (\<lambda>db start count.
        if 0 \<le> start \<and> 0 \<le> count \<and> start + count \<le> int (length (mleaves db))
        then Inr (take (nat count) (drop (nat start) (mleaves db)))
        else Inl (StoreError ''Leaves: out of range'')),
      Tile = (\<lambda>db h level offset.
        case map_of (mtiles db) (h, level, offset) of
          None \<Rightarrow> Inl ErrNoRows
        | Some blob \<Rightarrow> Inr (chunks32 (2 ^ h) blob)),
      SetTile = (\<lambda>db h level offset blob.
        case map_of (mtiles db) (h, level, offset) of
          None \<Rightarrow> Inr (db\<lparr>mtiles := ((h, level, offset), blob) # mtiles db\<rparr>)
        | Some old \<Rightarrow> if old = blob then Inr db else Inl (StoreError ''SetTile: tile exists'')),
      SetLeafMetadata = (\<lambda>db start metadata.
        Inr (db\<lparr>mmetadata := mmetadata db @ [(start, metadata)]\<rparr>))\<rparr>"

text \<open>A remote log whose leaves all have the same body, and stand-ins of 32 bytes for the
  two SHA-256 functions.\<close>

definition demo_leaf :: string where
  "demo_leaf = ''m v1 h1:a'' @ [CHR 0x0A] @ ''m v1/go.mod h1:b''"

definition demo_remote :: SumDBClient where
  "demo_remote =
     \<lparr>FullLeavesAtOffset = (\<lambda>offset attempt. Inr (replicate 256 demo_leaf)),
      PartialLeavesAtOffset = (\<lambda>offset count. Inr (replicate (nat count) demo_leaf))\<rparr>"

definition demo_hash :: "bytes \<Rightarrow> bytes \<Rightarrow> bytes" where
  "demo_hash l r = take 32 (map (\<lambda>(a, b). a + 3 * b + 1) (zip l r) @ replicate 32 0)"

definition demo_record_hash :: "string \<Rightarrow> bytes" where
  "demo_record_hash l = replicate 32 (of_nat (length l))"

definition demo_service :: "nat \<Rightarrow> MemDB Service" where
  "demo_service h =
     \<lparr>localDB = mem_store, sumDB = demo_remote, rfHash = demo_hash,
      RecordHash = demo_record_hash, height = h, retries = 2\<rparr>"

definition empty_db :: MemDB where
  "empty_db = \<lparr>mleaves = [], mtiles = [], mmetadata = []\<rparr>"

text \<open>Stores and services for the scenarios below: a store of 401 leaves, a service whose
  \<open>Head\<close> fails, a service whose \<open>WriteLeaves\<close> fails, and three leaf bodies.\<close>

definition db_of_leaves :: "string list \<Rightarrow> MemDB" where
  "db_of_leaves ls = \<lparr>mleaves = ls, mtiles = [], mmetadata = []\<rparr>"

definition db_401 :: MemDB where
  "db_401 = empty_db\<lparr>mleaves := replicate 401 demo_leaf\<rparr>"





definition short_version_leaf :: string where
  "short_version_leaf = ''m v1.2.3 h1:a'' @ [CHR 0x0A] @ ''m v1 h1:b''"


text \<open>A store of 256 leaves with its leaf tile \<open>(0, 0)\<close> as \<open>HashTiles\<close> writes it (the
  hash of every leaf is 32 bytes of 26), and the same store with the first byte of the tile
  changed.\<close>

definition honest_db :: MemDB where
  "honest_db =
     \<lparr>mleaves = replicate 256 demo_leaf,
      mtiles = [((8, 0, 0), replicate 8192 26)],
      mmetadata = []\<rparr>"

definition corrupted_db :: MemDB where
  "corrupted_db =
     \<lparr>mleaves = replicate 256 demo_leaf,
      mtiles = [((8, 0, 0), 27 # replicate 8191 26)],
      mmetadata = []\<rparr>"


section \<open>Properties of the tile codec\<close>

lemma readNodes_append:
  "length h = 32 \<Longrightarrow> readNodes (h @ rest) nodes = readNodes rest (nodes @ [Some h])"
  by (subst readNodes.simps) (auto simp: Let_def min_def)

lemma readNodes_chunks:
  "\<forall>n \<in> set ns. \<exists>h. n = Some h \<and> length h = 32 \<Longrightarrow>
   readNodes (concat (map slice_bytes ns)) acc = Inr (acc @ ns)"
proof (induction ns arbitrary: acc)
  case Nil
  then show ?case by (subst readNodes.simps) simp
next
  case (Cons n ns)
  then obtain h where h: "n = Some h" "length h = 32" by auto
  from Cons.prems have "\<forall>n \<in> set ns. \<exists>h. n = Some h \<and> length h = 32" by simp
  from Cons.IH [OF this, of "acc @ [n]"] h show ?case
    by (simp add: slice_bytes_def readNodes_append)
qed

lemma readNodes_ok_iff:
  "(\<exists>ns. readNodes buf acc = Inr ns) \<longleftrightarrow> 32 dvd length buf"
proof (induction buf acc rule: readNodes.induct)
  case (1 buf nodes)
  show ?case
  proof (cases "buf = []")
    case True
    then show ?thesis by (subst readNodes.simps) simp
  next
    case False
    show ?thesis
    proof (cases "length buf < 32")
      case True
      with False show ?thesis
        by (subst readNodes.simps) (auto simp: Let_def min_def dest: dvd_imp_le)
    next
      case ge: False
      then have m: "min 32 (length buf) = 32" by simp
      have "32 dvd length buf - 32 \<longleftrightarrow> 32 dvd length buf"
        using ge by (simp add: dvd_minus_self)
      with False 1 [OF False refl refl] ge m show ?thesis
        by (subst readNodes.simps) (simp add: Let_def)
    qed
  qed
qed

text \<open>
  C2. The claim lists four rejections: a hash-size byte other than 32, a truncated payload,
  a leaf-count byte of 0, and a payload whose length is not \<open>32 * (2 * numLeaves - 1)\<close>.
  The decoder has the first two checks only. The two bytes \<open>[32, 0]\<close> (leaf count 0, empty
  payload) decode to a tile with \<open>NumLeaves = 0\<close> and no nodes.
\<close>

theorem UnmarshalBinary_accepts_zero_leaves:
  "UnmarshalBinary [32, 0] = Inr \<lparr>NumLeaves = 0, Nodes = []\<rparr>"
  by (simp add: UnmarshalBinary_def readNodes.simps)

text \<open>
  C2, as the code has it: decoding succeeds exactly on the inputs that have the two header
  bytes, whose first byte is 32 and whose payload is a whole number of 32-byte hashes. The
  leaf-count byte is not examined and is not compared with the payload length.
\<close>

theorem UnmarshalBinary_accepts_iff:
  "(\<exists>t. UnmarshalBinary raw = Inr t) \<longleftrightarrow>
     (2 \<le> length raw \<and> hd raw = 32 \<and> 32 dvd (length raw - 2))"
proof (cases raw)
  case Nil
  then show ?thesis by (simp add: UnmarshalBinary_def)
next
  case (Cons hs b1)
  show ?thesis
  proof (cases b1)
    case Nil
    with Cons show ?thesis by (simp add: UnmarshalBinary_def)
  next
    case (Cons numLeaves b2)
    have "(\<exists>t. (case readNodes b2 [] of Inl e \<Rightarrow> Inl e
              | Inr nodes \<Rightarrow> Inr \<lparr>NumLeaves = ucast numLeaves, Nodes = nodes\<rparr>) = Inr t)
          \<longleftrightarrow> (\<exists>ns. readNodes b2 [] = Inr ns)"
      by (cases "readNodes b2 []") simp_all
    with Cons \<open>raw = hs # b1\<close> show ?thesis
      by (simp add: UnmarshalBinary_def readNodes_ok_iff)
  qed
qed

theorem UnmarshalBinary_accepts_iff_witness:
  "(\<exists>t. UnmarshalBinary [32, 7] = Inr t) \<and> \<not> (\<exists>t. UnmarshalBinary [32, 1, 9] = Inr t)"
  using UnmarshalBinary_accepts_iff [of "[32, 7]"] UnmarshalBinary_accepts_iff [of "[32, 1, 9]"]
  by simp

lemma ucast_byte_small: "x \<le> 255 \<Longrightarrow> ucast (ucast (x :: 64 word) :: byte) = x"
proof -
  assume "x \<le> 255"
  then have "unat x < 256" by (simp add: word_le_nat_alt)
  then have "unat (ucast (ucast x :: byte) :: 64 word) = unat x"
    by (simp add: unsigned_ucast_eq take_bit_eq_mod unat_mod_distrib)
  then show ?thesis by (simp only: word_unat_eq_iff)
qed

text \<open>
  What a round trip returns: the nodes come back when each is a 32-byte hash; the leaf
  count comes back reduced to its low eight bits.
\<close>

lemma roundtrip_low_byte:
  assumes "\<forall>n \<in> set (Nodes t). \<exists>h. n = Some h \<and> length h = 32"
  shows "UnmarshalBinary (MarshalBinary t) =
           Inr \<lparr>NumLeaves = ucast (ucast (NumLeaves t) :: byte), Nodes = Nodes t\<rparr>"
  using readNodes_chunks [OF assms, of "[]"]
  by (simp add: UnmarshalBinary_def MarshalBinary_def)

lemma roundtrip_up_to_255:
  assumes "\<forall>n \<in> set (Nodes t). \<exists>h. n = Some h \<and> length h = 32"
    and "NumLeaves t \<le> 255"
  shows "UnmarshalBinary (MarshalBinary t) = Inr (t :: Tile)"
  using roundtrip_low_byte [OF assms(1)] ucast_byte_small [OF assms(2)] by simp

text \<open>
  C3. The round trip fails on a full tile: with \<open>NumLeaves = 256\<close> and 511 nodes of 32
  bytes, \<open>byte(t.NumLeaves)\<close> is 0, and decoding returns a tile of 0 leaves.
\<close>

theorem full_tile_roundtrip_loses_NumLeaves:
  "UnmarshalBinary (MarshalBinary \<lparr>NumLeaves = 256, Nodes = replicate 511 (Some (replicate 32 0))\<rparr>)
     = Inr \<lparr>NumLeaves = 0, Nodes = replicate 511 (Some (replicate 32 0))\<rparr>"
  using roundtrip_low_byte [of "\<lparr>NumLeaves = 256, Nodes = replicate 511 (Some (replicate 32 0))\<rparr>"]
  by simp

section \<open>Properties of TileSize\<close>

lemma TileNodeKey_level0: "TileNodeKey 0 i = 2 * i"
  by (simp add: TileNodeKey_def)

lemma unat_double: "i < 256 \<Longrightarrow> unat (2 * i :: 64 word) = 2 * unat i"
proof -
  assume "i < 256"
  then have "unat i < 256" by (simp add: word_less_nat_alt)
  then show ?thesis by (simp add: unat_word_ariths)
qed

lemma unat_succ: "i < 256 \<Longrightarrow> unat (i + 1 :: 64 word) = unat i + 1"
proof -
  assume "i < 256"
  then have "unat i < 256" by (simp add: word_less_nat_alt)
  then show ?thesis by (simp add: unat_word_ariths)
qed

lemma TileSize_loop_full:
  "511 \<le> length (Nodes t) \<Longrightarrow> unat i \<le> 256 \<Longrightarrow>
    \<exists>n. TileSize_loop t i = Inr n \<and> unat i \<le> unat n \<and> unat n \<le> 256 \<and>
        (\<forall>j. unat i \<le> j \<and> j < unat n \<longrightarrow> Nodes t ! (2 * j) \<noteq> None) \<and>
        (unat n < 256 \<longrightarrow> Nodes t ! (2 * unat n) = None)"
proof (induction t i rule: TileSize_loop.induct)
  case (1 t i)
  note len = 1(2)
  show ?case
  proof (cases "i < 256")
    case False
    with 1(3) have "unat i = 256" by (simp add: word_less_nat_alt)
    with False show ?thesis
      by (subst TileSize_loop.simps) auto
  next
    case True
    then have ui: "unat i < 256" by (simp add: word_less_nat_alt)
    have k: "unat (TileNodeKey 0 i) = 2 * unat i"
      using True by (simp add: TileNodeKey_level0 unat_double)
    have inb: "unat (TileNodeKey 0 i) < length (Nodes t)"
      using k ui len by simp
    show ?thesis
    proof (cases "Nodes t ! (2 * unat i) = None")
      case nil: True
      with True inb k ui show ?thesis
        by (subst TileSize_loop.simps) auto
    next
      case nn: False
      have s: "unat (i + 1) = unat i + 1" using True by (rule unat_succ)
      from 1(1) [OF True inb _ len] nn k s ui
      obtain n where n: "TileSize_loop t (i + 1) = Inr n" "unat i + 1 \<le> unat n" "unat n \<le> 256"
        "\<forall>j. unat i + 1 \<le> j \<and> j < unat n \<longrightarrow> Nodes t ! (2 * j) \<noteq> None"
        "unat n < 256 \<longrightarrow> Nodes t ! (2 * unat n) = None"
        by auto
      have "\<forall>j. unat i \<le> j \<and> j < unat n \<longrightarrow> Nodes t ! (2 * j) \<noteq> None"
      proof (intro allI impI)
        fix j assume "unat i \<le> j \<and> j < unat n"
        then show "Nodes t ! (2 * j) \<noteq> None"
          using n(4) nn by (cases "j = unat i") auto
      qed
      with n True inb k nn show ?thesis
        by (subst TileSize_loop.simps) auto
    qed
  qed
qed

lemma TileSize_loop_short:
  "length (Nodes t) < 511 \<Longrightarrow> \<forall>k<length (Nodes t). Nodes t ! k \<noteq> None \<Longrightarrow>
   2 * unat i \<le> length (Nodes t) + 1 \<Longrightarrow> TileSize_loop t i = Inl IndexOutOfRange"
proof (induction t i rule: TileSize_loop.induct)
  case (1 t i)
  have ui: "unat i < 256" using 1(2,4) by arith
  then have lt: "i < 256" by (simp add: word_less_nat_alt)
  have k: "unat (TileNodeKey 0 i) = 2 * unat i"
    using lt by (simp add: TileNodeKey_level0 unat_double)
  show ?case
  proof (cases "2 * unat i < length (Nodes t)")
    case False
    with lt k show ?thesis by (subst TileSize_loop.simps) simp
  next
    case True
    then have nn: "Nodes t ! (2 * unat i) \<noteq> None" using 1(3) by simp
    have s: "unat (i + 1) = unat i + 1" using lt by (rule unat_succ)
    have "TileSize_loop t (i + 1) = Inl IndexOutOfRange"
      using 1(1) [OF lt _ _ 1(2) 1(3)] True k nn s by simp
    with lt True k nn show ?thesis by (subst TileSize_loop.simps) simp
  qed
qed

text \<open>
  C10. \<open>TileNodeKey 0 i\<close> is \<open>2 * i\<close>. On a tile whose \<open>Nodes\<close> has at least 511 entries,
  \<open>TileSize\<close> returns the least \<open>i < 256\<close> whose level-0 slot \<open>Nodes[2 * i]\<close> is \<open>nil\<close>, or
  256 when all are populated. On a shorter \<open>Nodes\<close> with no \<open>nil\<close> entry (a partial tile
  without padding) the scan leaves the slice and panics.
\<close>

theorem TileSize_needs_full_layout:
  "(\<forall>i. TileNodeKey 0 i = 2 * i) \<and>
   (511 \<le> length (Nodes t) \<longrightarrow>
      (\<exists>n. TileSize t = Inr n \<and> unat n \<le> 256 \<and>
           (\<forall>j<unat n. Nodes t ! (2 * j) \<noteq> None) \<and>
           (unat n < 256 \<longrightarrow> Nodes t ! (2 * unat n) = None))) \<and>
   (length (Nodes t) < 511 \<and> (\<forall>k<length (Nodes t). Nodes t ! k \<noteq> None) \<longrightarrow>
      TileSize t = Inl IndexOutOfRange)"
proof (intro conjI allI impI)
  fix i show "TileNodeKey 0 i = 2 * i" by (rule TileNodeKey_level0)
next
  assume "511 \<le> length (Nodes t)"
  from TileSize_loop_full [OF this, of 0]
  show "\<exists>n. TileSize t = Inr n \<and> unat n \<le> 256 \<and>
           (\<forall>j<unat n. Nodes t ! (2 * j) \<noteq> None) \<and>
           (unat n < 256 \<longrightarrow> Nodes t ! (2 * unat n) = None)"
    by (auto simp: TileSize_def)
next
  assume "length (Nodes t) < 511 \<and> (\<forall>k<length (Nodes t). Nodes t ! k \<noteq> None)"
  then show "TileSize t = Inl IndexOutOfRange"
    unfolding TileSize_def by (intro TileSize_loop_short) simp_all
qed

theorem TileSize_needs_full_layout_witness:
  "511 \<le> length (Nodes padded_tile) \<and>
   (\<exists>n. TileSize padded_tile = Inr n \<and> unat n \<le> 256 \<and>
        (\<forall>j<unat n. Nodes padded_tile ! (2 * j) \<noteq> None) \<and>
        (unat n < 256 \<longrightarrow> Nodes padded_tile ! (2 * unat n) = None)) \<and>
   length (Nodes unpadded_tile) < 511 \<and> Nodes unpadded_tile = [Some [], Some [], Some []] \<and>
   TileSize unpadded_tile = Inl IndexOutOfRange"
proof -
  have a: "511 \<le> length (Nodes padded_tile)" by (simp add: padded_tile_def)
  have b: "length (Nodes unpadded_tile) < 511" by (simp add: unpadded_tile_def)
  have c: "\<forall>k<length (Nodes unpadded_tile). Nodes unpadded_tile ! k \<noteq> None"
    by (simp add: unpadded_tile_def nth_Cons split: nat.split)
  have d: "Nodes unpadded_tile = [Some [], Some [], Some []]" by (simp add: unpadded_tile_def)
  from a b c d TileSize_needs_full_layout [of padded_tile] TileSize_needs_full_layout [of unpadded_tile]
  show ?thesis by blast
qed

section \<open>Properties of getLevelsForLeafCount\<close>

lemma div_pow_less: "0 < (c::int) \<Longrightarrow> 1 \<le> H \<Longrightarrow> c div 2 ^ H < c"
proof -
  assume c: "0 < c" and H: "1 \<le> H"
  from H have "(1::int) < 2 ^ H" by (intro one_less_power) simp_all
  with c show ?thesis by (rule int_div_less_self)
qed

lemma int_div_bounds:
  assumes "0 < (d::int)"
  shows "(c div d) * d \<le> c" and "c < (c div d + 1) * d"
proof -
  have e: "c = (c div d) * d + c mod d" by simp
  have m: "0 \<le> c mod d" "c mod d < d" using assms by simp_all
  show "(c div d) * d \<le> c" using e m by linarith
  have "(c div d + 1) * d = (c div d) * d + d" by (simp add: algebra_simps)
  then show "c < (c div d + 1) * d" using e m by linarith
qed

lemma getLevels_loop_count:
  assumes H: "1 \<le> H"
  shows "0 \<le> c \<Longrightarrow> \<exists>n. getLevels_loop H c t = Some (t + int n) \<and> c < 2 ^ (n * H) \<and> (0 < n \<longrightarrow> 2 ^ ((n - 1) * H) \<le> c)"
proof (induction "nat c" arbitrary: c t rule: less_induct)
  case less
  show ?case
  proof (cases "0 < c")
    case False
    with less.prems have "c = 0" by simp
    then show ?thesis
      by (subst getLevels_loop.simps) (auto intro: exI [of _ 0])
  next
    case True
    let ?c' = "c div 2 ^ H"
    have lt: "?c' < c" using True H by (rule div_pow_less)
    have ge: "0 \<le> ?c'" using True by (simp add: pos_imp_zdiv_nonneg_iff)
    from less.hyps [of ?c' "t + 1"] lt ge True
    obtain n where n: "getLevels_loop H ?c' (t + 1) = Some (t + 1 + int n)"
      "?c' < 2 ^ (n * H)" "0 < n \<longrightarrow> 2 ^ ((n - 1) * H) \<le> ?c'"
      by auto
    have a: "c < 2 ^ (Suc n * H)"
    proof -
      have "c < (?c' + 1) * 2 ^ H"
        by (rule int_div_bounds) simp
      also have "\<dots> \<le> 2 ^ (n * H) * 2 ^ H"
        using n(2) by (simp add: mult_right_mono)
      finally show ?thesis by (simp add: power_add mult.commute)
    qed
    have b: "2 ^ (n * H) \<le> c"
    proof (cases "0 < n")
      case False then show ?thesis using True by simp
    next
      case n0: True
      with n(3) have "2 ^ ((n - 1) * H) * 2 ^ H \<le> ?c' * 2 ^ H"
        by (simp add: mult_right_mono)
      also have "\<dots> \<le> c"
        by (rule int_div_bounds) simp
      finally show ?thesis using n0
        by (metis add.commute bot_nat_0.not_eq_extremum mult_eq_if power_add)
    qed
    from True n(1) a b show ?thesis
      by (subst getLevels_loop.simps) (auto simp: drop_bit_eq_div intro!: exI [of _ "Suc n"])
  qed
qed


lemma getLevelsForLeafCount_char:
  assumes "1 \<le> H" and "0 \<le> treeSize"
  shows "\<exists>K. getLevelsForLeafCount H treeSize = Some K \<and> - 1 \<le> K \<and>
           (treeSize < 2 ^ H \<longleftrightarrow> K = - 1) \<and>
           (0 \<le> K \<longrightarrow> 2 ^ (nat (K + 1) * H) \<le> treeSize) \<and>
           (\<forall>k. K < k \<longrightarrow> treeSize < 2 ^ (nat (k + 1) * H) \<and> treeSize div 2 ^ (nat (k + 1) * H) = 0) \<and>
           drop_bit (nat (K + 1) * H) (drop_bit H treeSize) = 0 \<and>
           (\<forall>m. m < nat (K + 1) \<longrightarrow> 0 < drop_bit (m * H) (drop_bit H treeSize))"
proof -
  let ?c = "treeSize div 2 ^ H"
  have c0: "0 \<le> ?c" using assms(2) by (simp add: pos_imp_zdiv_nonneg_iff)
  from getLevels_loop_count [OF assms(1) c0, of "- 1"]
  obtain n where n: "getLevels_loop H ?c (- 1) = Some (- 1 + int n)"
    "?c < 2 ^ (n * H)" "0 < n \<longrightarrow> 2 ^ ((n - 1) * H) \<le> ?c"
    by auto
  let ?K = "- 1 + int n"
  have up: "treeSize < 2 ^ (Suc n * H)"
  proof -
    have "treeSize < (?c + 1) * 2 ^ H" by (rule int_div_bounds) simp
    also have "\<dots> \<le> 2 ^ (n * H) * 2 ^ H" using n(2) by (simp add: mult_right_mono)
    finally show ?thesis by (simp add: power_add mult.commute)
  qed
  have lo: "0 < n \<Longrightarrow> 2 ^ (n * H) \<le> treeSize"
  proof -
    assume n0: "0 < n"
    with n(3) have "2 ^ ((n - 1) * H) * 2 ^ H \<le> ?c * 2 ^ H" by (simp add: mult_right_mono)
    also have "\<dots> \<le> treeSize" by (rule int_div_bounds) simp
    finally have "2 ^ ((n - 1) * H + H) \<le> treeSize" by (simp add: power_add)
    moreover have "(n - 1) * H + H = n * H" using n0 by (cases n) simp_all
    ultimately show ?thesis by simp
  qed
  have 1: "getLevelsForLeafCount H treeSize = Some ?K"
    using n(1) by (simp add: getLevelsForLeafCount_def drop_bit_eq_div)
  have 2: "treeSize < 2 ^ H \<longleftrightarrow> ?K = - 1"
  proof (cases "n = 0")
    case True
    then show ?thesis using up by simp
  next
    case False
    then have "H \<le> n * H" by (cases n) simp_all
    then have "(2::int) ^ H \<le> 2 ^ (n * H)" by (rule power_increasing) simp
    moreover have "2 ^ (n * H) \<le> treeSize" using lo False by simp
    ultimately have "2 ^ H \<le> treeSize" by linarith
    with False show ?thesis by simp
  qed
  have 3: "0 \<le> ?K \<longrightarrow> 2 ^ (nat (?K + 1) * H) \<le> treeSize"
    using lo by auto
  have 4: "\<forall>k. ?K < k \<longrightarrow> treeSize < 2 ^ (nat (k + 1) * H) \<and> treeSize div 2 ^ (nat (k + 1) * H) = 0"
  proof (intro allI impI)
    fix k assume "?K < k"
    then have "Suc n \<le> nat (k + 1)" by simp
    then have "Suc n * H \<le> nat (k + 1) * H" by (rule mult_le_mono1)
    then have "(2::int) ^ (Suc n * H) \<le> 2 ^ (nat (k + 1) * H)" by (rule power_increasing) simp
    with up have "treeSize < 2 ^ (nat (k + 1) * H)" by linarith
    with assms(2) show "treeSize < 2 ^ (nat (k + 1) * H) \<and> treeSize div 2 ^ (nat (k + 1) * H) = 0"
      by (simp add: div_pos_pos_trivial)
  qed
  have 5: "drop_bit (nat (?K + 1) * H) (drop_bit H treeSize) = 0"
    using c0 n(2) by (simp add: drop_bit_eq_div div_pos_pos_trivial)
  have 6: "\<forall>m. m < nat (?K + 1) \<longrightarrow> 0 < drop_bit (m * H) (drop_bit H treeSize)"
  proof (intro allI impI)
    fix m assume "m < nat (?K + 1)"
    then have m: "m \<le> n - 1" and n0: "0 < n" by simp_all
    from m have "m * H \<le> (n - 1) * H" by (rule mult_le_mono1)
    then have "(2::int) ^ (m * H) \<le> 2 ^ ((n - 1) * H)" by (rule power_increasing) simp
    with n(3) n0 have "2 ^ (m * H) \<le> ?c" by linarith
    then show "0 < drop_bit (m * H) (drop_bit H treeSize)"
      by (simp add: drop_bit_eq_div pos_imp_zdiv_pos_iff)
  qed
  from 1 2 3 4 5 6 show ?thesis by (intro exI [of _ ?K]) simp
qed


text \<open>
  C6. For a tile height of at least 1 and a tree size of at least 0, \<open>getLevelsForLeafCount\<close>
  returns; its result \<open>K\<close> is \<open>-1\<close> exactly when the tree size is below \<open>2 ^ H\<close>, and
  otherwise the greatest \<open>k\<close> with \<open>2 ^ ((k + 1) * H) \<le> treeSize\<close>, so that no stratum
  above \<open>K\<close> has a full tile. \<open>K + 1\<close> is the number of shifts by \<open>H\<close> that take
  \<open>treeSize >> H\<close> to zero.
\<close>

theorem getLevelsForLeafCount_greatest:
  assumes "1 \<le> H" and "0 \<le> treeSize"
  shows "\<exists>K. getLevelsForLeafCount H treeSize = Some K \<and> - 1 \<le> K \<and>
           (treeSize < 2 ^ H \<longleftrightarrow> K = - 1) \<and>
           (0 \<le> K \<longrightarrow> 2 ^ (nat (K + 1) * H) \<le> treeSize) \<and>
           (\<forall>k. K < k \<longrightarrow> treeSize < 2 ^ (nat (k + 1) * H) \<and> treeSize div 2 ^ (nat (k + 1) * H) = 0) \<and>
           drop_bit (nat (K + 1) * H) (drop_bit H treeSize) = 0 \<and>
           (\<forall>m. m < nat (K + 1) \<longrightarrow> 0 < drop_bit (m * H) (drop_bit H treeSize))"
  using assms by (rule getLevelsForLeafCount_char)

theorem getLevelsForLeafCount_greatest_witness:
  "(1::nat) \<le> 8 \<and> (0::int) \<le> 65536 \<and>
   (\<exists>K. getLevelsForLeafCount 8 65536 = Some K \<and> - 1 \<le> K \<and>
        ((65536::int) < 2 ^ 8 \<longleftrightarrow> K = - 1) \<and>
        (0 \<le> K \<longrightarrow> 2 ^ (nat (K + 1) * 8) \<le> (65536::int)) \<and>
        (\<forall>k. K < k \<longrightarrow> (65536::int) < 2 ^ (nat (k + 1) * 8) \<and>
                       (65536::int) div 2 ^ (nat (k + 1) * 8) = 0) \<and>
        drop_bit (nat (K + 1) * 8) (drop_bit 8 (65536::int)) = 0 \<and>
        (\<forall>m. m < nat (K + 1) \<longrightarrow> 0 < drop_bit (m * 8) (drop_bit 8 (65536::int))))"
  using getLevelsForLeafCount_greatest [of 8 65536] by simp

section \<open>Properties of CloneLeafTiles\<close>

lemma i64_id: "- (2 ^ 63) \<le> x \<Longrightarrow> x < 2 ^ 63 \<Longrightarrow> i64 x = x"
  by (simp add: i64_def mod_pos_pos_trivial)



lemma i64_id63: "0 \<le> x \<Longrightarrow> x < 2 ^ 63 \<Longrightarrow> i64 x = x"
  by (rule i64_id) simp_all

lemmas demo_defs = demo_service_def mem_store_def demo_remote_def empty_db_def db_of_leaves_def

text \<open>What the guard does: a checkpoint smaller than \<open>Head()\<close> is refused before any
  fetch; a checkpoint of size \<open>Head()\<close>, one leaf short of the store, is accepted and
  nothing is fetched.\<close>

lemma CloneLeafTiles_regressed:
  "Head (localDB s) db = Inr head \<Longrightarrow> N < head \<Longrightarrow>
   CloneLeafTiles s db N = (Inl (IllegalState head N), db, [])"
  by (simp add: CloneLeafTiles_def)

lemma CloneLeafTiles_one_leaf_too_many:
  assumes "Head (localDB s) db = Inr N" "0 \<le> N" "N + 1 < 2 ^ 63" "height s < 63"
  shows "CloneLeafTiles s db N = (Inr (), db, [])"
proof -
  let ?w = "(2::int) ^ height s"
  have w: "0 < ?w" by simp
  have w63: "?w < 2 ^ 63" using assms(4) by (intro power_strict_increasing) simp_all
  have tw: "i64 ?w = ?w" using w63 by (intro i64_id63) simp_all
  have ll: "i64 (N + 1) = N + 1" using assms(2,3) by (intro i64_id63) simp_all
  have rl: "i64 (N - (N + 1)) = - 1" by (simp add: i64_id)
  have "(- 1) sdiv ?w = - (1 div ?w)"
    using w by (simp add: signed_divide_int_def sgn_if)
  moreover have "0 \<le> 1 div ?w" by (simp add: pos_imp_zdiv_nonneg_iff)
  moreover have "1 div ?w \<le> 1"
  proof -
    have "0 \<le> 1 div ?w" by (simp add: pos_imp_zdiv_nonneg_iff)
    then have "1 div ?w \<le> (1 div ?w) * ?w" by (simp add: mult_le_cancel_left1)
    also have "\<dots> \<le> 1" by (rule int_div_bounds) simp
    finally show ?thesis .
  qed
  ultimately have "- 1 \<le> (- 1) sdiv ?w" "(- 1) sdiv ?w \<le> 0" by simp_all
  then have "i64 ((- 1) sdiv ?w) \<le> 0" by (simp add: i64_id)
  moreover have "i64 (- 1) = - 1" by (simp add: i64_def)
  ultimately show ?thesis
    using assms(1) w by (simp add: CloneLeafTiles_def Let_def tw ll)
qed

text \<open>
  C4. The claim wants the run to fail whenever the checkpoint's size is below
  \<open>Head() + 1\<close>. The guard is \<open>checkpoint.N < head\<close>: with 401 leaves in the store
  (\<open>Head() = 400\<close>) and a checkpoint of size 400 the run returns \<open>nil\<close>, without a fetch.
\<close>

theorem CloneLeafTiles_head_equals_size:
  "Head mem_store db_401 = Inr 400 \<and>
   CloneLeafTiles (demo_service 8) db_401 400 = (Inr (), db_401, [])"
  by (simp add: CloneLeafTiles_def demo_service_def mem_store_def db_401_def empty_db_def
      i64_id signed_divide_int_def Let_def)









section \<open>Properties of ProcessMetadata\<close>


lemma split_on_nonempty: "split_on c s \<noteq> []"
  by (induction s) (auto split: list.splits)







text \<open>
  C8. The claim wants a parse error for every body that departs from the format. The code
  indexes and slices without a check: a second-line version token shorter than the
  version, a body of one line and a line of two tokens each raise a run-time panic (slice
  bounds or index out of range).
\<close>

theorem ProcessMetadata_panics_on_malformed_leaf:
  "parseLeaf 0 short_version_leaf = Inl SliceOutOfRange \<and>
   parseLeaf 0 ''m v1 h1:a'' = Inl IndexOutOfRange \<and>
   parseLeaf 0 ''m v1'' = Inl IndexOutOfRange \<and>
   ProcessMetadata (demo_service 0) (db_of_leaves [short_version_leaf]) 1 =
     (Inl SliceOutOfRange, db_of_leaves [short_version_leaf])"
  by (simp add: ProcessMetadata_def ProcessMetadata_loop.simps parseLeaf_def Let_def demo_defs
      short_version_leaf_def i64_def signed_divide_int_def)



section \<open>Properties of compact ranges\<close>

lemma roots_foldl_Append:
  "roots (foldl (Append hash) r xs) = foldl (\<lambda>rs x. push_root hash (0, x) rs) (roots r) xs"
  by (induction xs arbitrary: r) (simp_all add: Append_def)

lemma rbegin_foldl_Append: "rbegin (foldl (Append hash) r xs) = rbegin r"
  by (induction xs arbitrary: r) (simp_all add: Append_def)

lemma push_root_higher:
  "\<forall>p \<in> set rs. h < fst p \<Longrightarrow> push_root hash (h, x) rs = (h, x) # rs"
  by (cases rs) auto

text \<open>Appending \<open>2 ^ H\<close> hashes to a range whose roots are all of height \<open>H\<close> or more
  has the effect of pushing one root of height \<open>H\<close>; for \<open>H > 0\<close> that root is a hash of
  two children.\<close>

lemma perfect_block_hashed:
  "length xs = 2 ^ H \<Longrightarrow>
   \<exists>root. (0 < H \<longrightarrow> (\<exists>a b. root = hash a b)) \<and>
     (\<forall>rs. (\<forall>p \<in> set rs. H \<le> fst p) \<longrightarrow>
        foldl (\<lambda>rs x. push_root hash (0, x) rs) rs xs = push_root hash (H, root) rs)"
proof (induction H arbitrary: xs)
  case 0
  then obtain x where "xs = [x]" by (cases xs) auto
  then show ?case by auto
next
  case (Suc H)
  let ?f = "\<lambda>rs x. push_root hash (0, x) rs"
  let ?ys = "take (2 ^ H) xs" and ?zs = "drop (2 ^ H) xs"
  have xs: "xs = ?ys @ ?zs" by simp
  have ly: "length ?ys = 2 ^ H" and lz: "length ?zs = 2 ^ H" using Suc.prems by simp_all
  from Suc.IH [OF ly] obtain ry where
    ry: "\<And>rs. (\<forall>p \<in> set rs. H \<le> fst p) \<Longrightarrow> foldl ?f rs ?ys = push_root hash (H, ry) rs"
    by blast
  from Suc.IH [OF lz] obtain rz where
    rz: "\<And>rs. (\<forall>p \<in> set rs. H \<le> fst p) \<Longrightarrow> foldl ?f rs ?zs = push_root hash (H, rz) rs"
    by blast
  have "foldl ?f rs xs = push_root hash (Suc H, hash ry rz) rs"
    if hi: "\<forall>p \<in> set rs. Suc H \<le> fst p" for rs
  proof -
    have lo: "\<forall>p \<in> set rs. H \<le> fst p" using hi by auto
    have 1: "foldl ?f rs ?ys = (H, ry) # rs"
      using ry [OF lo] hi by (simp add: push_root_higher Suc_le_eq)
    have 2: "foldl ?f ((H, ry) # rs) ?zs = push_root hash (H, rz) ((H, ry) # rs)"
      using lo by (intro rz) simp
    have "foldl ?f rs xs = foldl ?f (foldl ?f rs ?ys) ?zs"
      by (subst xs) (simp only: foldl_append)
    with 1 2 show ?thesis by simp
  qed
  then show ?case by blast
qed

lemma perfect_block:
  "length xs = 2 ^ H \<Longrightarrow>
   \<exists>root. \<forall>rs. (\<forall>p \<in> set rs. H \<le> fst p) \<longrightarrow>
     foldl (\<lambda>rs x. push_root hash (0, x) rs) rs xs = push_root hash (H, root) rs"
  using perfect_block_hashed [of xs H hash] by blast

lemma full_tile_single_root:
  assumes "length xs = 2 ^ H"
  shows "\<exists>root. roots (foldl (Append hash) (NewEmptyRange b) xs) = [(H, root)]"
proof -
  from perfect_block [OF assms, of hash] obtain root where
    "\<forall>rs. (\<forall>p \<in> set rs. H \<le> fst p) \<longrightarrow>
       foldl (\<lambda>rs x. push_root hash (0, x) rs) rs xs = push_root hash (H, root) rs"
    by blast
  then have "foldl (\<lambda>rs x. push_root hash (0, x) rs) [] xs = [(H, root)]" by simp
  then show ?thesis by (simp add: roots_foldl_Append NewEmptyRange_def)
qed

lemma full_tile_Hashes:
  assumes "length xs = 2 ^ H"
  shows "length (Hashes (foldl (Append hash) (NewEmptyRange b) xs)) = 1"
  using full_tile_single_root [OF assms, of hash b] by (auto simp: Hashes_def)

section \<open>Properties of HashTiles\<close>

text \<open>With a tile height of 8 and 256 leaves there is one leaf tile and no upper stratum. A
  leaf tile found in the store is used as it is: whatever its 256 hashes are, \<open>HashTiles\<close>
  returns \<open>nil\<close>.\<close>

lemma HashTiles_trusts_stored_leaf_tile:
  assumes h: "height s = 8"
    and t: "Tile (localDB s) db 8 0 0 = Inr hs" and l: "length hs = 256"
  shows "HashTiles s db 256 = Some (Inr (), db)"
proof -
  have len: "length hs = 2 ^ 8" using l by simp
  have one: "length (Hashes (foldl (Append (rfHash s)) (NewEmptyRange b) hs)) = 1" for b
    using full_tile_Hashes [OF len] .
  have leaf: "hashLeafLevel s db 1 =
      (Done, [foldl (Append (rfHash s)) (NewEmptyRange (u64 (u64 0 * 2 ^ 8))) hs], db)"
    unfolding hashLeafLevel_def
    apply (subst hashLeafLevel_loop.simps)
    apply (simp add: h t one Let_def)
    apply (subst hashLeafLevel_loop.simps)
    apply simp
    done
  have K: "getLevelsForLeafCount 8 256 = Some 0"
    by (simp add: getLevelsForLeafCount_def getLevels_loop.simps)
  have up: "upper_stages s db 256 0 1 1 input = ([], db)" for input
    by (subst upper_stages.simps) simp
  show ?thesis
    by (simp add: HashTiles_def h i64_id signed_divide_int_def leaf K up Let_def)
qed


lemma length_chunks32: "length (chunks32 n b) = n"
  by (induction n arbitrary: b) simp_all

lemma chunks32_first: "0 < n \<Longrightarrow> chunks32 n b ! 0 = take 32 b"
  by (cases n) simp_all

text \<open>The first run on a store of 256 leaves and no tile: the leaves are hashed and the tile
  is written.\<close>

lemma length_concat_32:
  "\<forall>x \<in> set xs. length x = 32 \<Longrightarrow> length (concat xs) = 32 * length xs"
  by (induction xs) simp_all

lemma pack_hashes:
  assumes r: "\<forall>x \<in> set res. length x = 32"
  shows "k \<le> length res \<Longrightarrow>
    fold (\<lambda>i blob. copy_at blob (i * 32) (res ! i)) [0..<k] (replicate (32 * length res) 0)
      = concat (take k res) @ replicate (32 * (length res - k)) 0"
proof (induction k)
  case 0
  then show ?case by simp
next
  case (Suc k)
  then have k: "k < length res" by simp
  let ?dst = "concat (take k res) @ replicate (32 * (length res - k)) (0::byte)"
  have lc: "length (concat (take k res)) = 32 * k"
    using r k by (subst length_concat_32) (auto dest: in_set_takeD)
  have lk: "length (res ! k) = 32" using r k by simp
  have rep: "replicate (32 * (length res - k)) (0::byte)
      = replicate 32 0 @ replicate (32 * (length res - Suc k)) 0"
    using k by (simp flip: replicate_add)
  have "copy_at ?dst (k * 32) (res ! k)
      = concat (take k res) @ res ! k @ replicate (32 * (length res - Suc k)) 0"
  proof -
    have t: "take (k * 32) ?dst = concat (take k res)" using lc by simp
    have "length ?dst - k * 32 = 32 * (length res - k)" using lc by simp
    moreover have "32 \<le> 32 * (length res - k)" using k by simp
    ultimately have m: "take (length ?dst - k * 32) (res ! k) = res ! k" using lk by simp
    have "drop (k * 32 + length (res ! k)) ?dst
        = drop 32 (replicate (32 * (length res - k)) 0)"
      using lc lk by simp
    also have "\<dots> = replicate (32 * (length res - Suc k)) 0"
      by (subst rep) simp
    finally show ?thesis unfolding copy_at_def t m by simp
  qed
  moreover have "take (Suc k) res = take k res @ [res ! k]"
    using k by (simp add: take_Suc_conv_app_nth)
  ultimately show ?case using Suc by simp
qed


lemma concat_replicate_replicate:
  "concat (replicate n (replicate m x)) = replicate (n * m) x"
  by (induction n) (simp_all add: replicate_add)

lemma hashLeafTile_first_run:
  "hashLeafTile (demo_service 8) (db_of_leaves (replicate 256 demo_leaf)) 0 =
     (Inr (replicate 256 (replicate 32 26)), honest_db)"
proof -
  let ?res = "replicate 256 (replicate 32 (26::byte))"
  have r: "\<forall>x \<in> set ?res. length x = 32" by simp
  have "fold (\<lambda>i blob. copy_at blob (i * 32) (?res ! i)) [0..<256] (replicate (32 * length ?res) 0)
      = concat (take 256 ?res) @ replicate (32 * (length ?res - 256)) 0"
    by (rule pack_hashes [OF r]) simp
  then have p: "fold (\<lambda>i blob. copy_at blob (i * 32) (?res ! i)) [0..<256] (replicate 8192 0)
      = replicate 8192 26"
    by (simp add: concat_replicate_replicate)
  have h: "demo_record_hash demo_leaf = replicate 32 26"
    by (simp add: demo_record_hash_def demo_leaf_def)
  show ?thesis
    by (simp add: hashLeafTile_def demo_service_def mem_store_def db_of_leaves_def
        honest_db_def i64_id HashLenBytes_def Let_def h p)
qed

lemma HashTiles_first_run:
  "HashTiles (demo_service 8) (db_of_leaves (replicate 256 demo_leaf)) 256 =
     Some (Inr (), honest_db)"
proof -
  let ?s = "demo_service 8" and ?db = "db_of_leaves (replicate 256 demo_leaf)"
  let ?hs = "replicate 256 (replicate 32 (26::byte))"
  have h: "height ?s = 8" by (simp add: demo_service_def)
  have t: "Tile (localDB ?s) ?db (height ?s) 0 0 = Inl ErrNoRows"
    by (simp add: demo_service_def mem_store_def db_of_leaves_def)
  have len: "length ?hs = 2 ^ 8" by simp
  have one: "length (Hashes (foldl (Append (rfHash ?s)) (NewEmptyRange b) ?hs)) = 1" for b
    using full_tile_Hashes [OF len] .
  let ?cr = "foldl (Append (rfHash ?s)) (NewEmptyRange (u64 (u64 0 * 2 ^ height ?s))) ?hs"
  have stop: "hashLeafLevel_loop ?s honest_db 1 (0 + 1) ([] @ [?cr]) = (Done, [?cr], honest_db)"
    by (subst hashLeafLevel_loop.simps) simp
  have one': "length (Hashes ?cr) = 1" by (rule one)
  have leaf: "hashLeafLevel ?s ?db 1 = (Done, [?cr], honest_db)"
    unfolding hashLeafLevel_def
    by (subst hashLeafLevel_loop.simps)
       (simp only: t hashLeafTile_first_run one' stop Let_def sum.case prod.case if_True
          refl simp_thms zero_less_one if_False)
  have K: "getLevelsForLeafCount 8 256 = Some 0"
    by (simp add: getLevelsForLeafCount_def getLevels_loop.simps)
  have up: "upper_stages ?s db 256 0 1 1 input = ([], db)" for input db
    by (subst upper_stages.simps) simp
  show ?thesis
    by (simp add: HashTiles_def h i64_id signed_divide_int_def leaf K up Let_def)
qed

lemma corrupted_db_one_byte:
  "corrupted_db = honest_db\<lparr>mtiles := [((8, 0, 0), (replicate 8192 26)[0 := 27])]\<rparr>"
proof -
  have "(replicate 8192 26 :: bytes) = 26 # replicate 8191 26"
    by (simp flip: replicate_Suc)
  then show ?thesis by (simp add: corrupted_db_def honest_db_def)
qed


text \<open>
  C5. The claim wants \<open>HashTiles\<close>, run again after a byte of the stored tile \<open>(0, 0)\<close> was
  changed, to end with a hash mismatch at level 0, offset 0. After the first run the first
  byte of the stored tile is changed, so that slot 0 differs from the hash of leaf 0; the
  second run of \<open>HashTiles\<close> returns \<open>nil\<close>: \<open>hashLeafLevel\<close>
  hashes the leaves only when the tile is absent, and the comparison of \<open>hashUpperLevel\<close>
  runs for strata from 1 up, of which a tree of 256 leaves has none.
\<close>

theorem HashTiles_accepts_corrupted_leaf_tile:
  "HashTiles (demo_service 8) (db_of_leaves (replicate 256 demo_leaf)) 256 =
     Some (Inr (), honest_db) \<and>
   corrupted_db = honest_db\<lparr>mtiles := [((8, 0, 0), (replicate 8192 26)[0 := 27])]\<rparr> \<and>
   RecordHash (demo_service 8) (mleaves corrupted_db ! 0) = replicate 32 26 \<and>
   (\<exists>hs. Tile (localDB (demo_service 8)) corrupted_db 8 0 0 = Inr hs \<and>
         hs ! 0 = 27 # replicate 31 26) \<and>
   HashTiles (demo_service 8) corrupted_db 256 = Some (Inr (), corrupted_db)"
proof -
  let ?hs = "chunks32 (2 ^ 8) (27 # replicate 8191 26)"
  have t: "Tile (localDB (demo_service 8)) corrupted_db 8 0 0 = Inr ?hs"
    by (simp add: demo_service_def mem_store_def corrupted_db_def)
  have l: "length ?hs = 256" by (simp add: length_chunks32)
  have h: "height (demo_service 8) = 8" by (simp add: demo_service_def)
  have "(27 # replicate 8191 26 :: bytes) = (27 # replicate 31 26) @ replicate 8160 26"
    by (simp flip: replicate_add)
  then have f: "?hs ! 0 = 27 # replicate 31 26"
    by (simp add: chunks32_first)
  have r: "RecordHash (demo_service 8) (mleaves corrupted_db ! 0) = replicate 32 26"
    by (simp add: demo_service_def demo_record_hash_def corrupted_db_def demo_leaf_def)
  from r t f HashTiles_trusts_stored_leaf_tile [OF h t l] HashTiles_first_run
    corrupted_db_one_byte
  show ?thesis by simp
qed



section \<open>Properties of CheckRootHash\<close>
































end
